theory Spec2Isabelle
  imports Complex_Main "HOL-Library.Log_Nat"
begin

chapter \<open>Gold e-commerce backend: the pricing engine and its endpoints\<close>

text \<open>
  The repository holds two variants of an Express/MySQL backend (both in
  \<^verbatim>\<open>src/unnamed/part_000\<close>: lines 1-198 the first, lines 199-807 the second)
  and a React front end. This theory embeds the price calculation of both
  variants, the \<^verbatim>\<open>POST /api/gold-price\<close> handler of the second variant and
  its \<^verbatim>\<open>GET /api/products/:id\<close> handler.
\<close>

section \<open>JavaScript numbers\<close>

text \<open>
  A JavaScript number is an IEEE-754 binary64 value. It is modelled as a
  rational (the finite values), the two infinities, or NaN. Every arithmetic
  operation computes the exact rational result and rounds it to the nearest
  binary64 value, ties to even, overflowing to an infinity, as IEEE-754
  prescribes. Negative zero is identified with zero: the only divisors of
  the program are the constant 100 and a price read from a \<^verbatim>\<open>DECIMAL\<close>
  column, and JSON prints both zeros as \<^verbatim>\<open>0\<close>.
\<close>

datatype jsnum = Fin rat | PInf | NInf | NaN

text \<open>\<open>pow2 e\<close> is \<open>2\<^sup>e\<close> for an integer exponent.\<close>

definition pow2 :: "int \<Rightarrow> rat" where
  "pow2 e = (if 0 \<le> e then 2 ^ nat e else 1 / 2 ^ nat (- e))"

text \<open>Rounding a rational to the nearest integer, ties to the even one.\<close>

definition round_half_even :: "rat \<Rightarrow> int" where
  "round_half_even x =
     (let n = \<lfloor>x\<rfloor>; d = x - of_int n
      in if d < 1 / 2 then n
         else if 1 / 2 < d then n + 1
         else if even n then n else n + 1)"

text \<open>
  \<open>ilog2 x\<close> is the binary exponent of a positive rational:
  \<open>2\<^sup>e \<le> x < 2\<^sup>e\<^sup>+\<^sup>1\<close>. It is computed from the bit length of an integer:
  of \<open>\<lfloor>x\<rfloor>\<close> when \<open>1 \<le> x\<close>, of \<open>\<lceil>1/x\<rceil> - 1\<close> otherwise.
\<close>

definition ilog2 :: "rat \<Rightarrow> int" where
  "ilog2 x = (if 1 \<le> x then bitlen \<lfloor>x\<rfloor> - 1 else - bitlen (\<lceil>1 / x\<rceil> - 1))"

text \<open>
  \<open>fl x\<close> is the binary64 value nearest to \<open>x\<close> with an unbounded exponent
  range upwards: 53 significant bits for a normal number, multiples of
  \<open>2\<^sup>-\<^sup>1\<^sup>0\<^sup>7\<^sup>4\<close> in the subnormal range.
\<close>

definition fl :: "rat \<Rightarrow> rat" where
  "fl x = (if x = 0 then 0
           else let e = max (ilog2 \<bar>x\<bar>) (- 1022); q = pow2 (e - 52)
                in of_int (round_half_even (x / q)) * q)"

definition max_double_bound :: rat where
  "max_double_bound = 2 ^ 1024"

text \<open>The result of an operation whose exact value is \<open>x\<close>.\<close>

definition fin :: "rat \<Rightarrow> jsnum" where
  "fin x = (let y = fl x
            in if max_double_bound \<le> y then PInf
               else if y \<le> - max_double_bound then NInf
               else Fin y)"

text \<open>A decimal literal of the source text denotes the nearest binary64 value.\<close>

definition lit :: "rat \<Rightarrow> jsnum" where
  "lit x = fin x"

subsection \<open>Arithmetic operators\<close>

text \<open>
  \<^verbatim>\<open>a * b\<close>, \<^verbatim>\<open>a + b\<close>, \<^verbatim>\<open>a - b\<close> and \<^verbatim>\<open>a / b\<close> on numbers. A zero divisor
  is the positive zero (see above), so \<^verbatim>\<open>x / 0\<close> has the sign of \<open>x\<close>.
\<close>

fun jmul :: "jsnum \<Rightarrow> jsnum \<Rightarrow> jsnum" where
  "jmul (Fin a) (Fin b) = fin (a * b)"
| "jmul (Fin a) PInf = (if a = 0 then NaN else if 0 < a then PInf else NInf)"
| "jmul (Fin a) NInf = (if a = 0 then NaN else if 0 < a then NInf else PInf)"
| "jmul PInf (Fin b) = (if b = 0 then NaN else if 0 < b then PInf else NInf)"
| "jmul NInf (Fin b) = (if b = 0 then NaN else if 0 < b then NInf else PInf)"
| "jmul PInf PInf = PInf"
| "jmul PInf NInf = NInf"
| "jmul NInf PInf = NInf"
| "jmul NInf NInf = PInf"
| "jmul NaN _ = NaN"
| "jmul _ NaN = NaN"

fun jadd :: "jsnum \<Rightarrow> jsnum \<Rightarrow> jsnum" where
  "jadd (Fin a) (Fin b) = fin (a + b)"
| "jadd (Fin a) PInf = PInf"
| "jadd (Fin a) NInf = NInf"
| "jadd PInf (Fin b) = PInf"
| "jadd NInf (Fin b) = NInf"
| "jadd PInf PInf = PInf"
| "jadd PInf NInf = NaN"
| "jadd NInf PInf = NaN"
| "jadd NInf NInf = NInf"
| "jadd NaN _ = NaN"
| "jadd _ NaN = NaN"

fun jsub :: "jsnum \<Rightarrow> jsnum \<Rightarrow> jsnum" where
  "jsub (Fin a) (Fin b) = fin (a - b)"
| "jsub (Fin a) PInf = NInf"
| "jsub (Fin a) NInf = PInf"
| "jsub PInf (Fin b) = PInf"
| "jsub NInf (Fin b) = NInf"
| "jsub PInf PInf = NaN"
| "jsub PInf NInf = PInf"
| "jsub NInf PInf = NInf"
| "jsub NInf NInf = NaN"
| "jsub NaN _ = NaN"
| "jsub _ NaN = NaN"

fun jdiv :: "jsnum \<Rightarrow> jsnum \<Rightarrow> jsnum" where
  "jdiv (Fin a) (Fin b) =
     (if b = 0 then (if a = 0 then NaN else if 0 < a then PInf else NInf)
      else fin (a / b))"
| "jdiv (Fin a) PInf = Fin 0"
| "jdiv (Fin a) NInf = Fin 0"
| "jdiv PInf (Fin b) = (if 0 \<le> b then PInf else NInf)"
| "jdiv NInf (Fin b) = (if 0 \<le> b then NInf else PInf)"
| "jdiv PInf PInf = NaN"
| "jdiv PInf NInf = NaN"
| "jdiv NInf PInf = NaN"
| "jdiv NInf NInf = NaN"
| "jdiv NaN _ = NaN"
| "jdiv _ NaN = NaN"

text \<open>The comparison \<^verbatim>\<open>a < b\<close>: false as soon as one side is NaN.\<close>

fun jless :: "jsnum \<Rightarrow> jsnum \<Rightarrow> bool" where
  "jless (Fin a) (Fin b) = (a < b)"
| "jless (Fin a) PInf = True"
| "jless NInf (Fin b) = True"
| "jless NInf PInf = True"
| "jless _ _ = False"

text \<open>
  \<^verbatim>\<open>Math.round\<close>: the nearest integer, a tie going to the larger one.
\<close>

fun Math_round :: "jsnum \<Rightarrow> jsnum" where
  "Math_round (Fin x) = Fin (of_int \<lfloor>x + 1 / 2\<rfloor>)"
| "Math_round v = v"

text \<open>\<^verbatim>\<open>isNaN\<close>, and the truth value of a number (\<^verbatim>\<open>!x\<close> is its negation).\<close>

fun isNaN :: "jsnum \<Rightarrow> bool" where
  "isNaN NaN = True"
| "isNaN _ = False"

fun truthy :: "jsnum \<Rightarrow> bool" where
  "truthy (Fin x) = (x \<noteq> 0)"
| "truthy NaN = False"
| "truthy _ = True"

text \<open>
  \<^verbatim>\<open>parseFloat\<close> applied to a number converts it to a string and parses
  it back, which returns the number.
\<close>

definition parseFloat :: "jsnum \<Rightarrow> jsnum" where
  "parseFloat x = x"

subsection \<open>Printing with two decimals\<close>

definition digit :: "nat \<Rightarrow> char" where
  "digit d = ''0123456789'' ! (d mod 10)"

fun decimal :: "nat \<Rightarrow> string" where
  "decimal n = (if n < 10 then [digit n] else decimal (n div 10) @ [digit n])"

declare decimal.simps [simp del]

text \<open>
  A string of the program. \<open>Str s\<close> is the string \<open>s\<close>. \<^verbatim>\<open>toFixed\<close> prints a
  number of magnitude \<open>10\<^sup>2\<^sup>1\<close> or more in the exponent notation of
  \<^verbatim>\<open>Number.prototype.toString\<close>, which is not modelled: \<open>ExpStr x s\<close> stands
  for that notation of \<open>x\<close> followed by \<open>s\<close>.
\<close>

datatype js_string = Str string | ExpStr rat string

fun append_string :: "js_string \<Rightarrow> string \<Rightarrow> js_string" where
  "append_string (Str s) t = Str (s @ t)"
| "append_string (ExpStr x s) t = ExpStr x (s @ t)"

text \<open>
  \<^verbatim>\<open>x.toFixed(2)\<close>: the sign, then the integer \<open>n\<close> nearest to \<open>100 \<bar>x\<bar>\<close> (the
  larger one on a tie) printed with a point before its last two digits.
\<close>

fun toFixed2 :: "jsnum \<Rightarrow> js_string" where
  "toFixed2 NaN = Str ''NaN''"
| "toFixed2 PInf = Str ''Infinity''"
| "toFixed2 NInf = Str ''-Infinity''"
| "toFixed2 (Fin x) =
     (if 10 ^ 21 \<le> \<bar>x\<bar> then ExpStr x []
      else let n = nat \<lfloor>\<bar>x\<bar> * 100 + 1 / 2\<rfloor>
           in Str ((if x < 0 then ''-'' else []) @ decimal (n div 100) @ ''.''
                   @ [digit (n div 10), digit n]))"

section \<open>The price calculation\<close>

subsection \<open>Property lookup in an object literal\<close>

text \<open>
  Both variants keep their purity factors in an object literal and read it
  with \<^verbatim>\<open>table[product.carat] || 1\<close>. A property read on an object literal
  finds the literal's own keys first and then the properties every object
  inherits from \<^verbatim>\<open>Object.prototype\<close>, which are functions (an object for
  \<^verbatim>\<open>__proto__\<close>). The result of a read is therefore a number, an object, or
  \<^verbatim>\<open>undefined\<close>.
\<close>

datatype js_value = Number jsnum | Object | Undefined

definition Object_prototype_keys :: "string list" where
  "Object_prototype_keys =
     [''constructor'', ''__defineGetter__'', ''__defineSetter__'', ''hasOwnProperty'',
      ''__lookupGetter__'', ''__lookupSetter__'', ''isPrototypeOf'',
      ''propertyIsEnumerable'', ''toString'', ''valueOf'', ''__proto__'',
      ''toLocaleString'']"

definition get_property :: "(string \<times> jsnum) list \<Rightarrow> string \<Rightarrow> js_value" where
  "get_property obj key =
     (case map_of obj key of
        Some v \<Rightarrow> Number v
      | None \<Rightarrow> if key \<in> set Object_prototype_keys then Object else Undefined)"

text \<open>\<^verbatim>\<open>v || d\<close>: \<open>v\<close> when it is truthy (every object is), \<open>d\<close> otherwise.\<close>

fun or_else :: "js_value \<Rightarrow> jsnum \<Rightarrow> js_value" where
  "or_else (Number x) d = (if truthy x then Number x else Number d)"
| "or_else Object d = Object"
| "or_else Undefined d = Number d"

text \<open>
  The conversion to a number that \<^verbatim>\<open>*\<close> applies to its operands: a function
  or a plain object converts through its string form, which is no numeral,
  to NaN.
\<close>

fun ToNumber :: "js_value \<Rightarrow> jsnum" where
  "ToNumber (Number x) = x"
| "ToNumber Object = NaN"
| "ToNumber Undefined = NaN"

subsection \<open>Second variant: \<^verbatim>\<open>GoldPriceCalculator\<close>\<close>

text \<open>
  \<^verbatim>\<open>calculatePrice\<close> reads four properties of its first argument, which is a row
  of the products table or an object built by the caller.
\<close>

record pricing_attrs =
  weight :: jsnum
  carat :: string
  making_charges :: jsnum
  profit_margin :: jsnum

record price_info =
  goldValue :: jsnum
  makingCharges :: jsnum
  baseCost :: jsnum
  sellingPrice :: jsnum

definition CARAT_FACTORS :: "(string \<times> jsnum) list" where
  "CARAT_FACTORS =
     [(''24K'', lit 1), (''22K'', lit (9167 / 10000)), (''21K'', lit (875 / 1000)),
      (''18K'', lit (750 / 1000)), (''14K'', lit (585 / 1000)), (''10K'', lit (417 / 1000))]"

text \<open>\<^verbatim>\<open>Math.round(x * 100) / 100\<close>, the rounding of the \<^verbatim>\<open>return\<close> statement.\<close>

definition round2 :: "jsnum \<Rightarrow> jsnum" where
  "round2 x = jdiv (Math_round (jmul x (Fin 100))) (Fin 100)"

definition calculatePrice :: "'a pricing_attrs_scheme \<Rightarrow> jsnum \<Rightarrow> price_info" where
  "calculatePrice product goldPricePerGram =
     (let caratFactor = ToNumber (or_else (get_property CARAT_FACTORS (carat product)) (Fin 1));
          goldValue = jmul (jmul (weight product) goldPricePerGram) caratFactor;
          makingCharges = jmul goldValue (jdiv (making_charges product) (Fin 100));
          baseCost = jadd goldValue makingCharges;
          sellingPrice = jmul baseCost (jadd (Fin 1) (jdiv (profit_margin product) (Fin 100)))
      in \<lparr>goldValue = round2 goldValue,
          makingCharges = round2 makingCharges,
          baseCost = round2 baseCost,
          sellingPrice = round2 sellingPrice\<rparr>)"

subsection \<open>First variant: the pricing written out in \<^verbatim>\<open>POST /api/gold-price\<close>\<close>

definition caratFactors :: "(string \<times> jsnum) list" where
  "caratFactors =
     [(''24K'', lit 1), (''22K'', lit (916 / 1000)), (''21K'', lit (875 / 1000)),
      (''18K'', lit (75 / 100)), (''14K'', lit (585 / 1000))]"

text \<open>
  The loop body of the first variant up to the value it stores in
  \<^verbatim>\<open>selling_price\<close>, \<^verbatim>\<open>Math.round(newPrice)\<close>.
\<close>

definition newPrice_rounded :: "'a pricing_attrs_scheme \<Rightarrow> jsnum \<Rightarrow> jsnum" where
  "newPrice_rounded product price_per_gram =
     (let factor = ToNumber (or_else (get_property caratFactors (carat product)) (Fin 1));
          goldValue = jmul (jmul (weight product) price_per_gram) factor;
          makingCharges = jmul goldValue (jdiv (making_charges product) (Fin 100));
          profit = jmul (jadd goldValue makingCharges) (jdiv (profit_margin product) (Fin 100));
          newPrice = jadd (jadd goldValue makingCharges) profit
      in Math_round newPrice)"

section \<open>The store and the endpoints of the second variant\<close>

text \<open>
  The three tables as lists of rows, in table order. A product row extends
  the four pricing attributes. Columns the handlers below never read or
  write (description, category, stock, images, the timestamps) and the
  auto-increment ids of inserted gold price and history rows are left out.
  The statements sent to the database are assumed to succeed, so the
  \<^verbatim>\<open>catch\<close> branches (status 500) are not part of the model; a \<^verbatim>\<open>SELECT\<close>
  without \<^verbatim>\<open>ORDER BY\<close> returns the rows in table order. A \<^verbatim>\<open>DECIMAL\<close>
  column is a number here: where the driver hands it over as a decimal
  string, every use below is an operand of \<^verbatim>\<open>*\<close>, \<^verbatim>\<open>/\<close> or \<^verbatim>\<open>-\<close>, which
  converts the string to the number it denotes. The column \<^verbatim>\<open>id\<close> is the
  field \<open>id'\<close>.
\<close>

record product = pricing_attrs +
  id' :: nat
  name :: string
  selling_price :: jsnum
  is_active :: bool

record gold_price_row =
  row_price_per_gram :: jsnum
  row_carat :: string

record price_history_row =
  product_id :: nat
  old_price :: jsnum
  new_price :: jsnum
  gold_price_per_gram :: jsnum

record db =
  gold_prices :: "gold_price_row list"
  products :: "product list"
  price_history :: "price_history_row list"

text \<open>Responses: an error status with its message, or the JSON body.\<close>

datatype http_error = Http400 string | Http404 string

record update_result =
  result_id :: nat
  result_name :: string
  result_old_price :: jsnum
  result_new_price :: jsnum
  change :: js_string

record gold_price_response =
  success :: bool
  updated_products :: nat
  details :: "update_result list"

text \<open>
  The request body of \<^verbatim>\<open>POST /api/gold-price\<close>: \<^verbatim>\<open>price_per_gram\<close> is a JSON
  number or absent (\<open>None\<close>), \<^verbatim>\<open>carat\<close> a string or absent. Bodies whose
  \<^verbatim>\<open>price_per_gram\<close> is a string, a boolean, an array or an object are
  outside the model.
\<close>

record gold_price_body =
  price_per_gram :: "jsnum option"
  body_carat :: "string option"

text \<open>
  \<^verbatim>\<open>UPDATE products SET selling_price = ?, updated_at = NOW() WHERE id = ?\<close>
\<close>

definition update_selling_price :: "jsnum \<Rightarrow> nat \<Rightarrow> product list \<Rightarrow> product list" where
  "update_selling_price v i rows =
     map (\<lambda>row. if id' row = i then row\<lparr>selling_price := v\<rparr> else row) rows"

text \<open>
  The percentage of the response,
  \<^verbatim>\<open>((new - old) / old * 100).toFixed(2) + '%'\<close>.
\<close>

definition change_text :: "jsnum \<Rightarrow> jsnum \<Rightarrow> js_string" where
  "change_text new old =
     append_string (toFixed2 (jmul (jdiv (jsub new old) old) (Fin 100))) ''%''"

text \<open>
  The \<^verbatim>\<open>for (const product of products)\<close> loop: the state is the database
  and \<^verbatim>\<open>updateResults\<close>; \<open>raw\<close> is \<^verbatim>\<open>price_per_gram\<close> as received.
\<close>

fun update_loop :: "jsnum \<Rightarrow> product list \<Rightarrow> db \<times> update_result list \<Rightarrow> db \<times> update_result list" where
  "update_loop raw [] (d, updateResults) = (d, updateResults)"
| "update_loop raw (product # rest) (d, updateResults) =
     (let priceInfo = calculatePrice product (parseFloat raw);
          d1 = d\<lparr>price_history := price_history d @
                 [\<lparr>product_id = id' product,
                   old_price = selling_price product,
                   new_price = sellingPrice priceInfo,
                   gold_price_per_gram = raw\<rparr>]\<rparr>;
          d2 = d1\<lparr>products :=
                 update_selling_price (sellingPrice priceInfo) (id' product) (products d1)\<rparr>
      in update_loop raw rest
           (d2, updateResults @
              [\<lparr>result_id = id' product,
                result_name = name product,
                result_old_price = selling_price product,
                result_new_price = sellingPrice priceInfo,
                change = change_text (sellingPrice priceInfo) (selling_price product)\<rparr>]))"

text \<open>
  \<^verbatim>\<open>POST /api/gold-price\<close>. The \<^verbatim>\<open>message\<close> field of the response, a text
  that repeats the price, is left out.
\<close>

definition post_gold_price :: "gold_price_body \<Rightarrow> db \<Rightarrow> (http_error + gold_price_response) \<times> db" where
  "post_gold_price body d =
     (case price_per_gram body of
        None \<Rightarrow> (Inl (Http400 ''Valid price is required''), d)
      | Some raw \<Rightarrow>
          if \<not> truthy raw \<or> isNaN raw then (Inl (Http400 ''Valid price is required''), d)
          else
            let c = (case body_carat body of None \<Rightarrow> ''24K'' | Some c \<Rightarrow> c);
                d1 = d\<lparr>gold_prices := gold_prices d @
                       [\<lparr>row_price_per_gram = parseFloat raw, row_carat = c\<rparr>]\<rparr>;
                active = filter is_active (products d1);
                (d2, updateResults) = update_loop raw active (d1, [])
            in (Inr \<lparr>success = True,
                     updated_products = length updateResults,
                     details = updateResults\<rparr>, d2))"

text \<open>
  \<^verbatim>\<open>GET /api/products/:id\<close>:
  \<^verbatim>\<open>SELECT * FROM products WHERE id = ? AND is_active = TRUE\<close>, then 404 on
  an empty result and the first row otherwise.
\<close>

definition get_product :: "nat \<Rightarrow> db \<Rightarrow> http_error + product" where
  "get_product i d =
     (case filter (\<lambda>row. id' row = i \<and> is_active row) (products d) of
        [] \<Rightarrow> Inl (Http404 ''Product not found'')
      | row # _ \<Rightarrow> Inr row)"

section \<open>A database for the scenarios\<close>

text \<open>
  The four sample products that \<^verbatim>\<open>initializeDefaultData\<close> inserts, priced at
  the default gold price 3000 as that function prices them, and a fifth,
  inactive product.
\<close>

definition sample_products :: "product list" where
  "sample_products =
     [\<lparr>weight = lit (105 / 10), carat = ''24K'', making_charges = lit (75 / 10),
       profit_margin = lit 15, id' = 1, name = ''24K Gold Necklace'',
       selling_price = lit (3894188 / 100), is_active = True\<rparr>,
      \<lparr>weight = lit (82 / 10), carat = ''22K'', making_charges = lit 5,
       profit_margin = lit 12, id' = 2, name = ''22K Gold Bracelet'',
       selling_price = lit (2651976 / 100), is_active = True\<rparr>,
      \<lparr>weight = lit (35 / 10), carat = ''18K'', making_charges = lit 10,
       profit_margin = lit 20, id' = 3, name = ''18K Gold Ring'',
       selling_price = lit 10395, is_active = True\<rparr>,
      \<lparr>weight = lit 5, carat = ''21K'', making_charges = lit 8,
       profit_margin = lit 18, id' = 4, name = ''21K Gold Earrings'',
       selling_price = lit (167265 / 10), is_active = True\<rparr>]"

definition retired_product :: product where
  "retired_product =
     \<lparr>weight = lit 2, carat = ''14K'', making_charges = lit 5,
      profit_margin = lit 10, id' = 5, name = ''14K Gold Pendant'',
      selling_price = lit (405405 / 100), is_active = False\<rparr>"

definition scenario_db :: db where
  "scenario_db =
     \<lparr>gold_prices = [\<lparr>row_price_per_gram = lit 3000, row_carat = ''24K''\<rparr>],
      products = sample_products @ [retired_product],
      price_history = []\<rparr>"

text \<open>A database whose only product has the stored price 0.\<close>

definition zero_price_db :: db where
  "zero_price_db =
     \<lparr>gold_prices = [],
      products =
        [\<lparr>weight = lit 1, carat = ''24K'', making_charges = lit 0, profit_margin = lit 0,
          id' = 1, name = ''Gold Charm'', selling_price = lit 0, is_active = True\<rparr>],
      price_history = []\<rparr>"

section \<open>Signs and order of numbers\<close>

text \<open>
  \<open>not_negative x\<close>: \<open>x\<close> is a number \<open>\<ge> 0\<close>, \<open>+Infinity\<close> or NaN.
  \<open>le_or_NaN a b\<close>: one of the two is NaN, or \<open>a \<le> b\<close> in the order of the
  extended number line.
\<close>

fun not_negative :: "jsnum \<Rightarrow> bool" where
  "not_negative (Fin x) = (0 \<le> x)"
| "not_negative NInf = False"
| "not_negative _ = True"

fun le_or_NaN :: "jsnum \<Rightarrow> jsnum \<Rightarrow> bool" where
  "le_or_NaN NaN _ = True"
| "le_or_NaN _ NaN = True"
| "le_or_NaN NInf _ = True"
| "le_or_NaN _ PInf = True"
| "le_or_NaN (Fin a) (Fin b) = (a \<le> b)"
| "le_or_NaN _ _ = False"

section \<open>Properties of the rounding to binary64\<close>

text \<open>Powers of two, the binary exponent and the two roundings are monotone.\<close>

lemma pow2_powi: "pow2 e = 2 powi e"
  by (simp add: pow2_def power_int_def inverse_eq_divide power_one_over)

lemma pow2_pos: "0 < pow2 e"
  by (simp add: pow2_powi)

lemma pow2_add: "pow2 (a + b) = pow2 a * pow2 b"
  by (simp add: pow2_powi power_int_add)

lemma pow2_mono: "a \<le> b \<Longrightarrow> pow2 a \<le> pow2 b"
  by (simp add: pow2_powi power_int_increasing)

lemma pow2_strict_mono: "a < b \<Longrightarrow> pow2 a < pow2 b"
  by (simp add: pow2_powi power_int_strict_increasing)

lemma pow2_nat: "pow2 (int n) = 2 ^ n"
  by (simp add: pow2_def)

lemma ilog2_bounds:
  assumes "0 < x"
  shows "pow2 (ilog2 x) \<le> x \<and> x < pow2 (ilog2 x + 1)"
proof (cases "1 \<le> x")
  case True
  define n where "n = \<lfloor>x\<rfloor>"
  have n1: "1 \<le> n" using True by (simp add: n_def)
  then have bl: "1 \<le> bitlen n" by (simp add: bitlen_alt_def)
  have b: "2 ^ nat (bitlen n - 1) \<le> n" "n < 2 ^ nat (bitlen n)"
    using bitlen_bounds [of n] n1 by auto
  have "pow2 (bitlen n - 1) = of_int (2 ^ nat (bitlen n - 1))"
    using bl by (simp add: pow2_def)
  also have "\<dots> \<le> of_int n" using b(1) by (simp only: of_int_le_iff)
  also have "\<dots> \<le> x" by (simp add: n_def)
  finally have lo: "pow2 (bitlen n - 1) \<le> x" .
  have "n + 1 \<le> 2 ^ nat (bitlen n)" using b(2) by simp
  then have "(of_int (n + 1) :: rat) \<le> of_int (2 ^ nat (bitlen n))" by (simp only: of_int_le_iff)
  moreover have "x < of_int (n + 1)" unfolding n_def by linarith
  ultimately have "x < of_int (2 ^ nat (bitlen n))" by linarith
  also have "\<dots> = pow2 (bitlen n)" using bl by (simp add: pow2_def)
  finally have hi: "x < pow2 (bitlen n - 1 + 1)" by simp
  show ?thesis using lo hi True by (simp add: ilog2_def n_def)
next
  case False
  define y where "y = 1 / x"
  have y1: "1 < y" using False assms by (simp add: y_def)
  define m where "m = \<lceil>y\<rceil> - 1"
  have m1: "1 \<le> m" using y1 unfolding m_def by linarith
  then have bl: "1 \<le> bitlen m" by (simp add: bitlen_alt_def)
  have b: "2 ^ nat (bitlen m - 1) \<le> m" "m < 2 ^ nat (bitlen m)"
    using bitlen_bounds [of m] m1 by auto
  have my: "of_int m < y" "y \<le> of_int m + 1" unfolding m_def by linarith+
  have "m + 1 \<le> 2 ^ nat (bitlen m)" using b(2) by simp
  then have "(of_int (m + 1) :: rat) \<le> of_int (2 ^ nat (bitlen m))" by (simp only: of_int_le_iff)
  then have "(of_int (m + 1) :: rat) \<le> 2 ^ nat (bitlen m)" by (simp only: of_int_power of_int_numeral)
  then have yhi: "y \<le> 2 ^ nat (bitlen m)" using my(2) by simp
  have "(of_int (2 ^ nat (bitlen m - 1)) :: rat) \<le> of_int m" using b(1) by (simp only: of_int_le_iff)
  then have "(2::rat) ^ nat (bitlen m - 1) \<le> of_int m" by (simp only: of_int_power of_int_numeral)
  then have ylo: "2 ^ nat (bitlen m - 1) < y" using my(1) by linarith
  have x_eq: "x = 1 / y" by (simp add: y_def)
  have ypos: "0 < y" using y1 by simp
  have lo: "pow2 (- bitlen m) \<le> x"
    using yhi ypos bl unfolding x_eq pow2_def by (simp add: field_simps)
  have "x < 1 / 2 ^ nat (bitlen m - 1)"
    using ylo ypos unfolding x_eq by (simp add: field_simps)
  also have "\<dots> = pow2 (- bitlen m + 1)"
  proof (cases "bitlen m = 1")
    case True then show ?thesis by (simp add: pow2_def)
  next
    case False
    then have "nat (bitlen m - 1) = nat (- (- bitlen m + 1))" "\<not> 0 \<le> - bitlen m + 1" using bl by auto
    then show ?thesis by (simp add: pow2_def)
  qed
  finally have hi: "x < pow2 (- bitlen m + 1)" .
  show ?thesis using lo hi False by (simp add: ilog2_def y_def m_def)
qed

lemma ilog2_unique:
  assumes "pow2 e \<le> x" "x < pow2 (e + 1)"
  shows "ilog2 x = e"
proof -
  have xpos: "0 < x" using assms(1) pow2_pos [of e] by linarith
  note b = ilog2_bounds [OF xpos]
  have "\<not> ilog2 x < e"
  proof
    assume "ilog2 x < e"
    then have "pow2 (ilog2 x + 1) \<le> pow2 e" by (intro pow2_mono) simp
    then show False using b assms by linarith
  qed
  moreover have "\<not> e < ilog2 x"
  proof
    assume "e < ilog2 x"
    then have "pow2 (e + 1) \<le> pow2 (ilog2 x)" by (intro pow2_mono) simp
    then show False using b assms by linarith
  qed
  ultimately show ?thesis by simp
qed

lemma ilog2_mono:
  assumes "0 < x" "x \<le> y"
  shows "ilog2 x \<le> ilog2 y"
proof (rule ccontr)
  assume "\<not> ilog2 x \<le> ilog2 y"
  then have "pow2 (ilog2 y + 1) \<le> pow2 (ilog2 x)" by (intro pow2_mono) simp
  moreover have "0 < y" using assms by simp
  ultimately show False using ilog2_bounds [OF assms(1)] ilog2_bounds [OF \<open>0 < y\<close>] assms(2) by linarith
qed

lemma round_half_even_of_int: "round_half_even (of_int n) = n"
  by (simp add: round_half_even_def)

lemma round_half_even_mono:
  assumes "x \<le> y"
  shows "round_half_even x \<le> round_half_even y"
proof -
  have fl: "\<lfloor>x\<rfloor> \<le> \<lfloor>y\<rfloor>" using assms by (rule floor_mono)
  show ?thesis
  proof (cases "\<lfloor>x\<rfloor> = \<lfloor>y\<rfloor>")
    case True
    then show ?thesis using assms by (auto simp: round_half_even_def Let_def)
  next
    case False
    then have "\<lfloor>x\<rfloor> + 1 \<le> \<lfloor>y\<rfloor>" using fl by simp
    moreover have "round_half_even x \<le> \<lfloor>x\<rfloor> + 1" by (simp add: round_half_even_def Let_def)
    moreover have "\<lfloor>y\<rfloor> \<le> round_half_even y" by (simp add: round_half_even_def Let_def)
    ultimately show ?thesis by linarith
  qed
qed

lemma round_half_even_minus: "round_half_even (- x) = - round_half_even x"
proof (cases "x \<in> \<int>")
  case True
  then obtain n where "x = of_int n" by (auto elim: Ints_cases)
  then show ?thesis using round_half_even_of_int [of "- n"] round_half_even_of_int [of n] by simp
next
  case False
  then have "frac x \<noteq> 0" by simp
  then have ne: "x - of_int \<lfloor>x\<rfloor> \<noteq> 0" by (simp add: frac_def)
  then have f: "\<lfloor>- x\<rfloor> = - \<lfloor>x\<rfloor> - 1" by (simp add: floor_minus ceiling_altdef)
  from ne show ?thesis unfolding round_half_even_def Let_def f
    by (auto simp: algebra_simps)
qed


lemma round_half_even_0: "round_half_even 0 = 0"
  using round_half_even_of_int [of 0] by simp

lemma fl_0: "fl 0 = 0"
  by (simp add: fl_def)

lemma fl_minus: "fl (- x) = - fl x"
  by (simp add: fl_def Let_def round_half_even_minus)

lemma fl_nonneg: "0 \<le> x \<Longrightarrow> 0 \<le> fl x"
proof -
  assume x: "0 \<le> x"
  have "0 \<le> round_half_even (x / q)" if "0 < q" for q
    using round_half_even_mono [of 0 "x / q"] x that by (simp add: round_half_even_0)
  then show ?thesis
    by (simp add: fl_def Let_def pow2_pos less_imp_le)
qed

lemma fl_mono_pos:
  assumes "0 < x" "x \<le> y"
  shows "fl x \<le> fl y"
proof -
  have ypos: "0 < y" using assms by simp
  define ex where "ex = max (ilog2 x) (- 1022) - 52"
  define ey where "ey = max (ilog2 y) (- 1022) - 52"
  have flx: "fl x = of_int (round_half_even (x / pow2 ex)) * pow2 ex"
    using assms(1) by (simp add: fl_def Let_def ex_def)
  have fly: "fl y = of_int (round_half_even (y / pow2 ey)) * pow2 ey"
    using ypos by (simp add: fl_def Let_def ey_def)
  have le: "ex \<le> ey" using ilog2_mono [OF assms] by (simp add: ex_def ey_def)
  show ?thesis
  proof (cases "ex = ey")
    case True
    have "x / pow2 ey \<le> y / pow2 ey" using assms(2) pow2_pos [of ey] by (simp add: divide_right_mono)
    then have "round_half_even (x / pow2 ey) \<le> round_half_even (y / pow2 ey)"
      by (rule round_half_even_mono)
    then have "(of_int (round_half_even (x / pow2 ey)) :: rat) \<le> of_int (round_half_even (y / pow2 ey))"
      by (simp only: of_int_le_iff)
    then show ?thesis unfolding flx fly True using pow2_pos [of ey] by (simp add: mult_right_mono)
  next
    case False
    then have lt: "ex < ey" using le by simp
    then have ey_eq: "ey = ilog2 y - 52" by (auto simp: ex_def ey_def)
    have "ilog2 x - 52 \<le> ex" by (simp add: ex_def)
    then have "pow2 (ilog2 x + 1) \<le> pow2 (ex + 53)" by (intro pow2_mono) simp
    then have "x < pow2 (ex + 53)" using ilog2_bounds [OF assms(1)] by linarith
    then have "x < pow2 53 * pow2 ex" by (simp add: pow2_add mult.commute)
    then have "x / pow2 ex \<le> of_int (2 ^ 53)"
      using pow2_pos [of ex] by (simp add: pow2_def field_simps)
    then have "round_half_even (x / pow2 ex) \<le> round_half_even (of_int (2 ^ 53))"
      by (rule round_half_even_mono)
    then have "round_half_even (x / pow2 ex) \<le> 2 ^ 53"
      by (simp only: round_half_even_of_int)
    then have "(of_int (round_half_even (x / pow2 ex)) :: rat) \<le> of_int (2 ^ 53)"
      by (simp only: of_int_le_iff)
    then have "fl x \<le> of_int (2 ^ 53) * pow2 ex"
      unfolding flx using pow2_pos [of ex] by (simp add: mult_right_mono)
    also have "\<dots> = pow2 53 * pow2 ex" by (simp add: pow2_def)
    also have "\<dots> = pow2 (ex + 53)" by (simp add: pow2_add)
    also have "\<dots> \<le> pow2 (ey + 52)" using lt by (intro pow2_mono) simp
    finally have a: "fl x \<le> pow2 (ey + 52)" .
    have "pow2 (ey + 52) \<le> y" using ilog2_bounds [OF ypos] by (simp add: ey_eq)
    then have "pow2 52 * pow2 ey \<le> y" by (simp add: pow2_add mult.commute)
    then have "of_int (2 ^ 52) \<le> y / pow2 ey"
      using pow2_pos [of ey] by (simp add: pow2_def field_simps)
    then have "round_half_even (of_int (2 ^ 52)) \<le> round_half_even (y / pow2 ey)"
      by (rule round_half_even_mono)
    then have "2 ^ 52 \<le> round_half_even (y / pow2 ey)"
      by (simp only: round_half_even_of_int)
    then have "(of_int (2 ^ 52) :: rat) \<le> of_int (round_half_even (y / pow2 ey))"
      by (simp only: of_int_le_iff)
    then have "of_int (2 ^ 52) * pow2 ey \<le> fl y"
      unfolding fly using pow2_pos [of ey] by (simp add: mult_right_mono)
    moreover have "of_int (2 ^ 52) * pow2 ey = pow2 52 * pow2 ey" by (simp add: pow2_def)
    moreover have "pow2 52 * pow2 ey = pow2 (ey + 52)" by (simp add: pow2_add)
    ultimately show ?thesis using a by linarith
  qed
qed

lemma fl_mono:
  assumes "x \<le> y"
  shows "fl x \<le> fl y"
proof -
  consider "0 < x" | "x \<le> 0" "0 \<le> y" | "y < 0" by linarith
  then show ?thesis
  proof cases
    case 1
    then show ?thesis using assms by (rule fl_mono_pos)
  next
    case 2
    have "fl x \<le> 0" using fl_nonneg [of "- x"] 2(1) by (simp add: fl_minus)
    moreover have "0 \<le> fl y" using 2(2) by (rule fl_nonneg)
    ultimately show ?thesis by simp
  next
    case 3
    have "fl (- y) \<le> fl (- x)" using 3 assms by (intro fl_mono_pos) simp_all
    then show ?thesis by (simp add: fl_minus)
  qed
qed

lemma fl_pow2:
  assumes "- 1074 \<le> k"
  shows "fl (pow2 k) = pow2 k"
proof -
  have il: "ilog2 (pow2 k) = k"
    by (rule ilog2_unique) (simp_all add: pow2_strict_mono)
  define e where "e = max k (- 1022) - 52"
  have ek: "0 \<le> k - e" using assms by (simp add: e_def)
  have "pow2 k = pow2 (k - e) * pow2 e" by (simp flip: pow2_add)
  also have "pow2 (k - e) = of_int (2 ^ nat (k - e))" using ek by (simp add: pow2_def)
  finally have eq: "pow2 k = of_int (2 ^ nat (k - e)) * pow2 e" .
  have ne: "pow2 e \<noteq> 0" using pow2_pos [of e] by simp
  have "pow2 k / pow2 e = of_int (2 ^ nat (k - e))"
    using ne by (subst eq) simp
  then have "round_half_even (pow2 k / pow2 e) = 2 ^ nat (k - e)"
    by (simp only: round_half_even_of_int)
  moreover have "pow2 k \<noteq> 0" "\<bar>pow2 k\<bar> = pow2 k" using pow2_pos [of k] by simp_all
  ultimately have "fl (pow2 k) = of_int (2 ^ nat (k - e)) * pow2 e"
    by (simp add: fl_def Let_def il e_def)
  then show ?thesis using eq by simp
qed

lemma fl_abs_le:
  assumes "\<bar>x\<bar> \<le> pow2 k" "- 1074 \<le> k"
  shows "\<bar>fl x\<bar> \<le> pow2 k"
proof -
  have "fl x \<le> fl (pow2 k)" using assms(1) by (intro fl_mono) simp
  moreover have "fl (- pow2 k) \<le> fl x" using assms(1) by (intro fl_mono) simp
  ultimately show ?thesis by (simp add: fl_minus fl_pow2 [OF assms(2)] abs_le_iff)
qed

subsection \<open>Evaluation on numerals\<close>

lemma floor_rat_numeral: "\<lfloor>numeral a / numeral b :: rat\<rfloor> = numeral a div numeral b"
  using floor_divide_of_int_eq [of "numeral a" "numeral b", where ?'a = rat] by simp

lemma floor_rat_neg_numeral: "\<lfloor>- (numeral a / numeral b :: rat)\<rfloor> = (- numeral a) div numeral b"
  using floor_divide_of_int_eq [of "- numeral a" "numeral b", where ?'a = rat] by simp

lemma ceiling_rat_numeral: "\<lceil>numeral a / numeral b :: rat\<rceil> = - ((- numeral a) div numeral b)"
  unfolding ceiling_def by (simp add: floor_rat_neg_numeral)

lemma ceiling_rat_neg_numeral: "\<lceil>- (numeral a / numeral b :: rat)\<rceil> = - (numeral a div numeral b)"
  unfolding ceiling_def by (simp add: floor_rat_numeral)

lemmas fl_eval = fl_def ilog2_def round_half_even_def pow2_def compute_bitlen Let_def
  floor_rat_numeral floor_rat_neg_numeral ceiling_rat_numeral ceiling_rat_neg_numeral

text \<open>Below \<open>2\<^sup>6\<^sup>4\<close> in magnitude no operation overflows.\<close>

lemma fin_small:
  assumes "\<bar>x\<bar> \<le> 18446744073709551616"
  shows "fin x = Fin (fl x)"
proof -
  have "\<bar>x\<bar> \<le> pow2 64" using assms by (simp add: pow2_def)
  then have "\<bar>fl x\<bar> \<le> pow2 64" by (rule fl_abs_le) simp
  moreover have "pow2 64 < max_double_bound"
    unfolding max_double_bound_def pow2_def by (simp del: power_numeral)
  ultimately show ?thesis by (auto simp: fin_def Let_def)
qed

lemmas js_eval = fin_small lit_def round2_def fl_eval

subsection \<open>Examples of the number model\<close>

lemma binary64_examples:
  "lit (1 / 10) = Fin (3602879701896397 / 36028797018963968)"
  "jadd (lit (1 / 10)) (lit (2 / 10)) = Fin (1351079888211149 / 4503599627370496)"
  "jadd (lit (1 / 10)) (lit (2 / 10)) \<noteq> lit (3 / 10)"
  "jmul (Fin 3) (lit (11 / 10)) = Fin (7430939385161319 / 2251799813685248)"
  by (simp_all add: js_eval)

lemma decimal_examples:
  "decimal 0 = ''0''" "decimal 7 = ''7''" "decimal 42 = ''42''" "decimal 1205 = ''1205''"
  by (simp_all add: decimal.simps digit_def)

lemma change_text_examples:
  "change_text (lit (4023994 / 100)) (lit (3894188 / 100)) = Str ''3.33%''"
  "change_text (Fin 90) (Fin 100) = Str ''-10.00%''"
  "change_text (Fin 3000) (Fin 0) = Str ''Infinity%''"
  "change_text (Fin 0) (Fin 0) = Str ''NaN%''"
  by (simp_all add: change_text_def js_eval decimal.simps digit_def)

section \<open>Properties of the update loop\<close>

lemma update_loop_results:
  "snd (update_loop raw ps (d, rs)) =
     rs @ map (\<lambda>p. \<lparr>result_id = id' p, result_name = name p,
                     result_old_price = selling_price p,
                     result_new_price = sellingPrice (calculatePrice p raw),
                     change = change_text (sellingPrice (calculatePrice p raw)) (selling_price p)\<rparr>) ps"
  by (induction ps arbitrary: d rs) (simp_all add: Let_def parseFloat_def)

lemma update_loop_history:
  "price_history (fst (update_loop raw ps (d, rs))) =
     price_history d @ map (\<lambda>p. \<lparr>product_id = id' p, old_price = selling_price p,
                     new_price = sellingPrice (calculatePrice p raw),
                     gold_price_per_gram = raw\<rparr>) ps"
  by (induction ps arbitrary: d rs) (simp_all add: Let_def parseFloat_def)

lemma update_loop_gold_prices:
  "gold_prices (fst (update_loop raw ps (d, rs))) = gold_prices d"
  by (induction ps arbitrary: d rs) (simp_all add: Let_def)

lemma id'_update_selling_price:
  "map id' (update_selling_price v i rows) = map id' rows"
  by (simp add: update_selling_price_def)

lemma update_loop_products:
  "distinct (map id' ps) \<Longrightarrow>
   products (fst (update_loop raw ps (d, rs))) =
     map (\<lambda>row. case find (\<lambda>p. id' p = id' row) ps of
                   None \<Rightarrow> row
                 | Some p \<Rightarrow> row\<lparr>selling_price := sellingPrice (calculatePrice p raw)\<rparr>)
         (products d)"
proof (induction ps arbitrary: d rs)
  case Nil
  then show ?case by simp
next
  case (Cons p ps)
  define v where "v = sellingPrice (calculatePrice p raw)"
  define d2 where "d2 = d\<lparr>price_history := price_history d @
                 [\<lparr>product_id = id' p, old_price = selling_price p,
                   new_price = v, gold_price_per_gram = raw\<rparr>],
             products := update_selling_price v (id' p) (products d)\<rparr>"
  define rs2 where "rs2 = rs @
              [\<lparr>result_id = id' p, result_name = name p,
                result_old_price = selling_price p, result_new_price = v,
                change = change_text v (selling_price p)\<rparr>]"
  have dist: "distinct (map id' ps)" using Cons.prems by simp
  have "id' p \<notin> id' ` set ps" using Cons.prems by simp
  then have "\<forall>q \<in> set ps. id' q \<noteq> id' p" by (metis imageI)
  then have none: "find (\<lambda>q. id' q = id' p) ps = None"
    by (simp add: find_None_iff)
  have unfold: "update_loop raw (p # ps) (d, rs) = update_loop raw ps (d2, rs2)"
    by (simp add: Let_def parseFloat_def d2_def rs2_def v_def)
  have prods: "products d2 = update_selling_price v (id' p) (products d)"
    by (simp add: d2_def)
  have "products (fst (update_loop raw ps (d2, rs2))) =
     map (\<lambda>row. case find (\<lambda>p. id' p = id' row) ps of
                   None \<Rightarrow> row
                 | Some p \<Rightarrow> row\<lparr>selling_price := sellingPrice (calculatePrice p raw)\<rparr>)
         (update_selling_price v (id' p) (products d))"
    using Cons.IH [OF dist, of d2 rs2] by (simp only: prods)
  also have "\<dots> = map (\<lambda>row. case find (\<lambda>q. id' q = id' row) (p # ps) of
                   None \<Rightarrow> row
                 | Some q \<Rightarrow> row\<lparr>selling_price := sellingPrice (calculatePrice q raw)\<rparr>)
         (products d)"
    unfolding update_selling_price_def map_map
    by (rule map_cong [OF refl]) (simp add: none v_def)
  finally show ?case by (simp only: unfold)
qed

lemma find_only:
  assumes "r \<in> set ys" "P r" "\<forall>p \<in> set ys. P p \<longrightarrow> p = r"
  shows "find P ys = Some r"
  using assms
proof (induction ys)
  case Nil
  then show ?case by simp
next
  case (Cons a ys)
  show ?case
  proof (cases "P a")
    case True
    then have "a = r" using Cons.prems(3) by simp
    then show ?thesis using True by simp
  next
    case False
    then have "r \<in> set ys" using Cons.prems(1,2) by auto
    moreover have "\<forall>p \<in> set ys. P p \<longrightarrow> p = r" using Cons.prems(3) by simp
    ultimately have "find P ys = Some r" using Cons.IH Cons.prems(2) by blast
    then show ?thesis using False by simp
  qed
qed

lemma find_unique:
  assumes "distinct (map f xs)" "r \<in> set xs"
  shows "find (\<lambda>p. f p = f r) (filter P xs) = (if P r then Some r else None)"
proof -
  have inj: "inj_on f (set xs)" using assms(1) by (simp add: distinct_map)
  have eq: "p = r" if "p \<in> set xs" "f p = f r" for p
    using inj that assms(2) by (auto dest: inj_onD)
  show ?thesis
  proof (cases "P r")
    case True
    then have "r \<in> set (filter P xs)" using assms(2) by simp
    moreover have "\<forall>p \<in> set (filter P xs). f p = f r \<longrightarrow> p = r" using eq by simp
    ultimately have "find (\<lambda>p. f p = f r) (filter P xs) = Some r"
      by (intro find_only) simp_all
    then show ?thesis using True by simp
  next
    case False
    then have "\<not> (\<exists>p. p \<in> set (filter P xs) \<and> f p = f r)" using eq by auto
    then show ?thesis using False by (simp add: find_None_iff)
  qed
qed


lemma update_loop_active:
  assumes "distinct (map id' (products d))"
  shows "products (fst (update_loop raw (filter is_active (products d)) (d, rs))) =
     map (\<lambda>row. if is_active row
                 then row\<lparr>selling_price := sellingPrice (calculatePrice row raw)\<rparr>
                 else row) (products d)"
proof -
  have "distinct (map id' (filter is_active (products d)))"
    using assms by (rule distinct_map_filter)
  then have "products (fst (update_loop raw (filter is_active (products d)) (d, rs))) =
     map (\<lambda>row. case find (\<lambda>p. id' p = id' row) (filter is_active (products d)) of
                   None \<Rightarrow> row
                 | Some p \<Rightarrow> row\<lparr>selling_price := sellingPrice (calculatePrice p raw)\<rparr>)
         (products d)"
    by (rule update_loop_products)
  also have "\<dots> = map (\<lambda>row. if is_active row
                 then row\<lparr>selling_price := sellingPrice (calculatePrice row raw)\<rparr>
                 else row) (products d)"
    by (rule map_cong [OF refl]) (simp add: find_unique [OF assms])
  finally show ?thesis .
qed


lemma change_text_zero:
  "change_text new (Fin 0) \<in> {Str ''Infinity%'', Str ''-Infinity%'', Str ''NaN%''}"
proof (cases new)
  case (Fin a)
  show ?thesis
  proof (cases "fin a")
    case (Fin y)
    then show ?thesis using \<open>new = Fin a\<close> by (simp add: change_text_def)
  qed (simp_all add: change_text_def \<open>new = Fin a\<close>)
qed (simp_all add: change_text_def)

section \<open>Properties of the handler\<close>



lemma post_gold_price_accepted:
  assumes "price_per_gram body = Some g" "truthy g" "\<not> isNaN g"
  shows "fst (post_gold_price body d) =
           Inr \<lparr>success = True, updated_products = length (filter is_active (products d)),
                details = map (\<lambda>p. \<lparr>result_id = id' p, result_name = name p,
                     result_old_price = selling_price p,
                     result_new_price = sellingPrice (calculatePrice p g),
                     change = change_text (sellingPrice (calculatePrice p g)) (selling_price p)\<rparr>) (filter is_active (products d))\<rparr>"
    and "gold_prices (snd (post_gold_price body d)) =
           gold_prices d @ [\<lparr>row_price_per_gram = g,
              row_carat = (case body_carat body of None \<Rightarrow> ''24K'' | Some c \<Rightarrow> c)\<rparr>]"
    and "price_history (snd (post_gold_price body d)) =
           price_history d @ map (\<lambda>p. \<lparr>product_id = id' p, old_price = selling_price p,
                     new_price = sellingPrice (calculatePrice p g),
                     gold_price_per_gram = g\<rparr>) (filter is_active (products d))"
    and "distinct (map id' (products d)) \<Longrightarrow>
         products (snd (post_gold_price body d)) =
           map (\<lambda>row. if is_active row
                 then row\<lparr>selling_price := sellingPrice (calculatePrice row g)\<rparr>
                 else row) (products d)"
proof -
  define active where "active = filter is_active (products d)"
  define c where "c = (case body_carat body of None \<Rightarrow> ''24K'' | Some c \<Rightarrow> c)"
  define d1 where "d1 = d\<lparr>gold_prices := gold_prices d @
                       [\<lparr>row_price_per_gram = g, row_carat = c\<rparr>]\<rparr>"
  define res where "res = update_loop g active (d1, [])"
  have p1: "products d1 = products d" "price_history d1 = price_history d"
    "gold_prices d1 = gold_prices d @ [\<lparr>row_price_per_gram = g, row_carat = c\<rparr>]"
    by (simp_all add: d1_def)
  have eq: "post_gold_price body d =
      (Inr \<lparr>success = True, updated_products = length (snd res), details = snd res\<rparr>, fst res)"
    using assms(1-3)
    by (simp add: post_gold_price_def Let_def parseFloat_def case_prod_beta res_def d1_def c_def active_def)
  have sn: "snd res = map (\<lambda>p. \<lparr>result_id = id' p, result_name = name p,
                     result_old_price = selling_price p,
                     result_new_price = sellingPrice (calculatePrice p g),
                     change = change_text (sellingPrice (calculatePrice p g)) (selling_price p)\<rparr>) active"
    unfolding res_def by (simp add: update_loop_results)
  show "fst (post_gold_price body d) =
           Inr \<lparr>success = True, updated_products = length (filter is_active (products d)),
                details = map (\<lambda>p. \<lparr>result_id = id' p, result_name = name p,
                     result_old_price = selling_price p,
                     result_new_price = sellingPrice (calculatePrice p g),
                     change = change_text (sellingPrice (calculatePrice p g)) (selling_price p)\<rparr>) (filter is_active (products d))\<rparr>"
    by (simp add: eq sn active_def)
  show "gold_prices (snd (post_gold_price body d)) =
           gold_prices d @ [\<lparr>row_price_per_gram = g,
              row_carat = (case body_carat body of None \<Rightarrow> ''24K'' | Some c \<Rightarrow> c)\<rparr>]"
    by (simp add: eq res_def update_loop_gold_prices p1 c_def)
  show "price_history (snd (post_gold_price body d)) =
           price_history d @ map (\<lambda>p. \<lparr>product_id = id' p, old_price = selling_price p,
                     new_price = sellingPrice (calculatePrice p g),
                     gold_price_per_gram = g\<rparr>) (filter is_active (products d))"
    by (simp add: eq res_def update_loop_history p1 active_def)
  show "products (snd (post_gold_price body d)) =
           map (\<lambda>row. if is_active row
                 then row\<lparr>selling_price := sellingPrice (calculatePrice row g)\<rparr>
                 else row) (products d)" if "distinct (map id' (products d))"
  proof -
    have "distinct (map id' (products d1))" using that by (simp add: p1)
    then have "products (fst (update_loop g (filter is_active (products d1)) (d1, []))) =
       map (\<lambda>row. if is_active row
                 then row\<lparr>selling_price := sellingPrice (calculatePrice row g)\<rparr>
                 else row) (products d1)"
      by (rule update_loop_active)
    then show ?thesis by (simp add: eq res_def p1 active_def)
  qed
qed

section \<open>Monotonicity of the arithmetic\<close>

lemma max_double_bound_pos: "0 < max_double_bound"
  by (simp add: max_double_bound_def)

lemma le_or_NaN_PInf [simp]: "le_or_NaN a PInf"
  by (cases a) simp_all

lemma le_or_NaN_NInf [simp]: "le_or_NaN NInf b"
  by (cases b) simp_all

lemma le_or_NaN_NaN [simp]: "le_or_NaN a NaN"
  by (cases a) simp_all

lemma le_or_NaN_refl [simp]: "le_or_NaN a a"
  by (cases a) simp_all

lemma le_or_NaN_not_less: "le_or_NaN a b \<Longrightarrow> \<not> jless b a"
  by (cases a; cases b) simp_all

lemma fin_mono:
  assumes "x \<le> y"
  shows "le_or_NaN (fin x) (fin y)"
  using fl_mono [OF assms] max_double_bound_pos
  by (auto simp: fin_def Let_def)

lemma fin_not_negative:
  assumes "0 \<le> x"
  shows "not_negative (fin x)"
  using fl_nonneg [OF assms] max_double_bound_pos
  by (auto simp: fin_def Let_def)

lemma jmul_commute: "jmul a b = jmul b a"
  by (cases a; cases b) (simp_all add: mult.commute)

lemma jmul_mono:
  assumes "le_or_NaN a b" "not_negative c"
  shows "le_or_NaN (jmul a c) (jmul b c)"
proof (cases c)
  case (Fin k)
  then have k: "0 \<le> k" using assms(2) by simp
  show ?thesis
  proof (cases a; cases b)
    fix x y assume ab: "a = Fin x" "b = Fin y"
    then have "x * k \<le> y * k" using assms(1) k by (simp add: mult_right_mono)
    then show ?thesis using ab Fin by (simp add: fin_mono)
  qed (use assms(1) Fin k in \<open>auto\<close>)
next
  case PInf
  then show ?thesis using assms(1) by (cases a; cases b) auto
next
  case NInf
  then show ?thesis using assms(2) by simp
next
  case NaN
  then show ?thesis by (cases a; cases b) simp_all
qed

lemma jmul_mono_right:
  assumes "le_or_NaN a b" "not_negative c"
  shows "le_or_NaN (jmul c a) (jmul c b)"
  using jmul_mono [OF assms] by (simp add: jmul_commute)

lemma jadd_mono:
  assumes "le_or_NaN a b" "le_or_NaN c d"
  shows "le_or_NaN (jadd a c) (jadd b d)"
proof (cases a; cases b; cases c; cases d)
  fix x y z w assume "a = Fin x" "b = Fin y" "c = Fin z" "d = Fin w"
  then show ?thesis using assms by (simp add: fin_mono add_mono)
qed (use assms in \<open>simp_all\<close>)

lemma Math_round_mono:
  assumes "le_or_NaN a b"
  shows "le_or_NaN (Math_round a) (Math_round b)"
proof (cases a; cases b)
  fix x y assume ab: "a = Fin x" "b = Fin y"
  then have "\<lfloor>x + 1 / 2\<rfloor> \<le> \<lfloor>y + 1 / 2\<rfloor>" using assms by (intro floor_mono) simp
  then show ?thesis using ab by simp
qed (use assms in \<open>simp_all\<close>)

lemma jdiv_100_mono:
  assumes "le_or_NaN a b"
  shows "le_or_NaN (jdiv a (Fin 100)) (jdiv b (Fin 100))"
proof (cases a; cases b)
  fix x y assume ab: "a = Fin x" "b = Fin y"
  then have "x / 100 \<le> y / 100" using assms by (simp add: divide_right_mono)
  then show ?thesis using ab by (simp add: fin_mono)
qed (use assms in \<open>simp_all\<close>)

lemma round2_mono:
  assumes "le_or_NaN a b"
  shows "le_or_NaN (round2 a) (round2 b)"
  unfolding round2_def
  by (intro jdiv_100_mono Math_round_mono jmul_mono assms) simp

lemma percent_not_negative:
  assumes "0 \<le> m"
  shows "not_negative (jdiv (Fin m) (Fin 100))"
  using assms by (simp add: fin_not_negative)

lemma one_plus_not_negative:
  assumes "not_negative c"
  shows "not_negative (jadd (Fin 1) c)"
  using assms by (cases c) (simp_all add: fin_not_negative)

lemma lit_not_negative: "0 \<le> x \<Longrightarrow> not_negative (lit x)"
  by (simp add: lit_def fin_not_negative)

lemma or_else_not_negative:
  assumes "\<And>x. v = Number x \<Longrightarrow> not_negative x"
  shows "not_negative (ToNumber (or_else v (Fin 1)))"
  using assms by (cases v) simp_all

lemma CARAT_FACTORS_not_negative:
  "not_negative (ToNumber (or_else (get_property CARAT_FACTORS key) (Fin 1)))"
proof (rule or_else_not_negative)
  fix x assume "get_property CARAT_FACTORS key = Number x"
  then have "(key, x) \<in> set CARAT_FACTORS"
    by (auto simp: get_property_def split: option.splits if_splits dest: map_of_SomeD)
  then show "not_negative x"
    by (auto simp: CARAT_FACTORS_def lit_not_negative)
qed

lemma sellingPrice_mono:
  assumes "weight p = Fin w" "0 \<le> w"
    and "making_charges p = Fin m" "0 \<le> m"
    and "profit_margin p = Fin k" "0 \<le> k"
    and "le_or_NaN g1 g2"
  shows "le_or_NaN (sellingPrice (calculatePrice p g1)) (sellingPrice (calculatePrice p g2))"
proof -
  have w: "not_negative (weight p)" using assms(1,2) by simp
  have c: "not_negative (jdiv (making_charges p) (Fin 100))"
    using assms(3,4) by (simp add: fin_not_negative)
  have c': "not_negative (jdiv (profit_margin p) (Fin 100))"
    using assms(5,6) by (simp add: fin_not_negative)
  define f where "f = ToNumber (or_else (get_property CARAT_FACTORS (carat p)) (Fin 1))"
  have f: "not_negative f" unfolding f_def by (rule CARAT_FACTORS_not_negative)
  define gv where "gv g = jmul (jmul (weight p) g) f" for g
  have gv: "le_or_NaN (gv g1) (gv g2)"
    unfolding gv_def by (intro jmul_mono jmul_mono_right assms(7) w f)
  have mk: "le_or_NaN (jmul (gv g1) (jdiv (making_charges p) (Fin 100)))
                      (jmul (gv g2) (jdiv (making_charges p) (Fin 100)))"
    by (intro jmul_mono gv c)
  have bc: "le_or_NaN (jadd (gv g1) (jmul (gv g1) (jdiv (making_charges p) (Fin 100))))
                      (jadd (gv g2) (jmul (gv g2) (jdiv (making_charges p) (Fin 100))))"
    by (intro jadd_mono gv mk)
  have sp: "le_or_NaN
     (jmul (jadd (gv g1) (jmul (gv g1) (jdiv (making_charges p) (Fin 100))))
           (jadd (Fin 1) (jdiv (profit_margin p) (Fin 100))))
     (jmul (jadd (gv g2) (jmul (gv g2) (jdiv (making_charges p) (Fin 100))))
           (jadd (Fin 1) (jdiv (profit_margin p) (Fin 100))))"
    by (intro jmul_mono bc one_plus_not_negative c')
  show ?thesis
    unfolding calculatePrice_def Let_def
    using round2_mono [OF sp] by (simp add: gv_def f_def)
qed

subsection \<open>Amounts that are not negative\<close>




section \<open>Evaluation of the price calculation and of the scenarios\<close>

lemmas price_eval = calculatePrice_def CARAT_FACTORS_def get_property_def
  Object_prototype_keys_def js_eval

lemmas db_eval = scenario_db_def sample_products_def retired_product_def zero_price_db_def

section \<open>The claims\<close>




text \<open>
  Claim C2. The necklace of the sample data (weight 10.5, purity 24K, making
  charges 7.5 percent, profit margin 15 percent) at a gold price of 3000:
  \<^verbatim>\<open>calculatePrice\<close> returns goldValue 31500.00, makingCharges 2362.50,
  baseCost 33862.50 and sellingPrice 38941.88, each of them the binary64
  value that the decimal denotes. The steps are those of the definition:
  goldValue = weight * price * factor, makingCharges = goldValue *
  (making_charges / 100), baseCost = goldValue + makingCharges, sellingPrice
  = baseCost * (1 + profit_margin / 100).
\<close>

theorem calculatePrice_necklace:
  "calculatePrice
     \<lparr>weight = lit (105 / 10), carat = ''24K'', making_charges = lit (75 / 10),
      profit_margin = lit 15\<rparr> (lit 3000)
   = \<lparr>goldValue = lit 31500, makingCharges = lit (236250 / 100),
      baseCost = lit (3386250 / 100), sellingPrice = lit (3894188 / 100)\<rparr>"
  by (simp add: price_eval)

text \<open>
  Claim C3, as stated, fails. The claim: every amount is rounded to two
  decimals at the step that computes it, so a later step consumes the
  rounded value of the earlier one. For weight 1, purity 24K, making charges
  100 percent, no margin and the gold price 1.00390625 the returned
  goldValue and makingCharges are both 1.00; their rounded sum is 2.00, but
  the returned baseCost is 2.01, the rounding of the unrounded sum 2.0078125.
\<close>

theorem baseCost_not_from_rounded_parts:
  "goldValue (calculatePrice
      \<lparr>weight = Fin 1, carat = ''24K'', making_charges = Fin 100, profit_margin = Fin 0\<rparr>
      (Fin (257 / 256))) = Fin 1
   \<and> makingCharges (calculatePrice
      \<lparr>weight = Fin 1, carat = ''24K'', making_charges = Fin 100, profit_margin = Fin 0\<rparr>
      (Fin (257 / 256))) = Fin 1
   \<and> round2 (jadd (Fin 1) (Fin 1)) = Fin 2
   \<and> baseCost (calculatePrice
      \<lparr>weight = Fin 1, carat = ''24K'', making_charges = Fin 100, profit_margin = Fin 0\<rparr>
      (Fin (257 / 256))) = lit (201 / 100)
   \<and> lit (201 / 100) \<noteq> Fin 2"
  by (simp add: price_eval)

text \<open>
  Claim C3, amended. The four amounts are computed from one another without
  rounding, and each of the four is rounded to two decimals only where the
  result object is built: every returned amount is \<^verbatim>\<open>Math.round(x * 100) / 100\<close>
  of its unrounded value, and each later step consumes the unrounded value
  of the earlier one.
\<close>

theorem calculatePrice_rounds_on_return:
  "let gv = jmul (jmul (weight p) g)
              (ToNumber (or_else (get_property CARAT_FACTORS (carat p)) (Fin 1)));
       mc = jmul gv (jdiv (making_charges p) (Fin 100));
       bc = jadd gv mc;
       sp = jmul bc (jadd (Fin 1) (jdiv (profit_margin p) (Fin 100)))
   in goldValue (calculatePrice p g) = round2 gv
    \<and> makingCharges (calculatePrice p g) = round2 mc
    \<and> baseCost (calculatePrice p g) = round2 bc
    \<and> sellingPrice (calculatePrice p g) = round2 sp"
  by (simp add: calculatePrice_def Let_def)






text \<open>
  Claim C6, as stated, fails. The claim: when the stored old price is 0 the
  percentage is reported as unmeasurable (null) and the division by zero is
  guarded. For the product with the stored price 0 and the new gold price
  3000 the response carries the old price 0, the new price 3000 and the
  change \<^verbatim>\<open>"Infinity%"\<close>.
\<close>

theorem zero_old_price_prints_Infinity:
  "\<exists>r d'. post_gold_price \<lparr>price_per_gram = Some (Fin 3000), body_carat = None\<rparr> zero_price_db
              = (Inr r, d')
     \<and> map result_old_price (details r) = [Fin 0]
     \<and> map result_new_price (details r) = [Fin 3000]
     \<and> map change (details r) = [Str ''Infinity%'']"
proof -
  define body where "body = \<lparr>price_per_gram = Some (Fin 3000), body_carat = None\<rparr>"
  have a: "price_per_gram body = Some (Fin 3000)" "truthy (Fin 3000)" "\<not> isNaN (Fin 3000)"
    by (simp_all add: body_def)
  note acc = post_gold_price_accepted [OF a, of zero_price_db]
  define r where "r = projr (fst (post_gold_price body zero_price_db))"
  have "fst (post_gold_price body zero_price_db) = Inr r"
    unfolding r_def acc(1) by simp
  then obtain d' where rd: "post_gold_price body zero_price_db = (Inr r, d')"
    by (cases "post_gold_price body zero_price_db") auto
  have 1: "map result_old_price (details r) = [Fin 0]"
    unfolding r_def acc(1) by (simp add: db_eval js_eval)
  have 2: "map result_new_price (details r) = [Fin 3000]"
    unfolding r_def acc(1) by (simp add: db_eval price_eval)
  have 3: "map change (details r) = [Str ''Infinity%'']"
    unfolding r_def acc(1) by (simp add: db_eval price_eval change_text_def)
  show ?thesis using rd 1 2 3 unfolding body_def
    by - (rule exI [of _ r], rule exI [of _ d'], simp)
qed

text \<open>
  Claim C6, amended. For every product of the batch whose stored old price
  is 0 the percentage is the computed value of
  \<^verbatim>\<open>((new - old) / old * 100).toFixed(2) + '%'\<close> with no guard: the division
  by zero gives an infinity or NaN, and the change reported is one of the
  strings \<^verbatim>\<open>"Infinity%"\<close>, \<^verbatim>\<open>"-Infinity%"\<close> and \<^verbatim>\<open>"NaN%"\<close>, never null.
\<close>

theorem zero_old_price_change_unguarded:
  assumes "post_gold_price body d = (Inr r, d')"
    and "u \<in> set (details r)" and "result_old_price u = Fin 0"
  shows "change u = change_text (result_new_price u) (Fin 0)
     \<and> change u \<in> {Str ''Infinity%'', Str ''-Infinity%'', Str ''NaN%''}"
proof -
  obtain g where g: "price_per_gram body = Some g" "truthy g" "\<not> isNaN g"
    using assms(1) by (auto simp: post_gold_price_def split: option.splits if_splits)
  have "fst (post_gold_price body d) = Inr r" using assms(1) by simp
  then have "details r = map (\<lambda>p. \<lparr>result_id = id' p, result_name = name p,
                     result_old_price = selling_price p,
                     result_new_price = sellingPrice (calculatePrice p g),
                     change = change_text (sellingPrice (calculatePrice p g)) (selling_price p)\<rparr>)
                 (filter is_active (products d))"
    unfolding post_gold_price_accepted(1) [OF g, of d] by auto
  then obtain p :: product where "u = \<lparr>result_id = id' p, result_name = name p,
                     result_old_price = selling_price p,
                     result_new_price = sellingPrice (calculatePrice p g),
                     change = change_text (sellingPrice (calculatePrice p g)) (selling_price p)\<rparr>"
    using assms(2) by auto
  then have "change u = change_text (result_new_price u) (result_old_price u)" by simp
  then show ?thesis using assms(3) change_text_zero [of "result_new_price u"] by simp
qed

text \<open>Claim C6, amended, for the product with the stored price 0.\<close>

theorem zero_old_price_change_unguarded_charm:
  "\<exists>r d'. post_gold_price \<lparr>price_per_gram = Some (Fin 3000), body_carat = None\<rparr> zero_price_db
              = (Inr r, d')
     \<and> (\<exists>u. details r = [u] \<and> result_old_price u = Fin 0
          \<and> change u \<in> {Str ''Infinity%'', Str ''-Infinity%'', Str ''NaN%''})"
proof -
  define body where "body = \<lparr>price_per_gram = Some (Fin 3000), body_carat = None\<rparr>"
  have a: "price_per_gram body = Some (Fin 3000)" "truthy (Fin 3000)" "\<not> isNaN (Fin 3000)"
    by (simp_all add: body_def)
  note acc = post_gold_price_accepted [OF a, of zero_price_db]
  define r where "r = projr (fst (post_gold_price body zero_price_db))"
  have "fst (post_gold_price body zero_price_db) = Inr r"
    unfolding r_def acc(1) by simp
  then obtain d' where rd: "post_gold_price body zero_price_db = (Inr r, d')"
    by (cases "post_gold_price body zero_price_db") auto
  have "length (details r) = 1" unfolding r_def acc(1) by (simp add: db_eval)
  then obtain u where u: "details r = [u]" by (cases "details r") auto
  have "map result_old_price (details r) = [Fin 0]"
    unfolding r_def acc(1) by (simp add: db_eval js_eval)
  then have z: "result_old_price u = Fin 0" using u by simp
  have "u \<in> set (details r)" using u by simp
  from zero_old_price_change_unguarded [OF rd this z, THEN conjunct2] show ?thesis using rd u z unfolding body_def
    by - (rule exI [of _ r], rule exI [of _ d'], simp)
qed

text \<open>
  Claim C7. The claim: the lookup of the purity factor is total and every
  label outside the table gets the factor 1.0. The example of the claim
  holds: the label 99K gives goldValue 30000. A label that names a property
  inherited from \<^verbatim>\<open>Object.prototype\<close> is outside the table too, but the read
  \<^verbatim>\<open>CARAT_FACTORS['toString']\<close> returns a function, \<^verbatim>\<open>|| 1\<close> keeps it, and
  the product with it is NaN: for the label \<^verbatim>\<open>toString\<close> the factor is not 1
  and goldValue is NaN.
\<close>

theorem calculatePrice_inherited_key:
  "goldValue (calculatePrice
      \<lparr>weight = Fin 10, carat = ''toString'', making_charges = Fin 5, profit_margin = Fin 10\<rparr>
      (Fin 3000)) = NaN
   \<and> ToNumber (or_else (get_property CARAT_FACTORS ''toString'') (Fin 1)) \<noteq> Fin 1
   \<and> map_of CARAT_FACTORS ''toString'' = None
   \<and> goldValue (calculatePrice
      \<lparr>weight = Fin 10, carat = ''99K'', making_charges = Fin 5, profit_margin = Fin 10\<rparr>
      (Fin 3000)) = Fin 30000"
  by (simp add: price_eval)

text \<open>
  Claim C8, as stated, fails. The claim: for a positive weight a higher gold
  price gives a strictly higher selling price. For weight 1 at 24K without
  charges and margin the prices 1 and 1.001953125 both give the selling
  price 1.00, because the result is rounded to two decimals.
\<close>

theorem sellingPrice_not_strictly_increasing:
  "(1 :: rat) < 513 / 512
   \<and> sellingPrice (calculatePrice
        \<lparr>weight = Fin 1, carat = ''24K'', making_charges = Fin 0, profit_margin = Fin 0\<rparr>
        (Fin 1)) = Fin 1
   \<and> sellingPrice (calculatePrice
        \<lparr>weight = Fin 1, carat = ''24K'', making_charges = Fin 0, profit_margin = Fin 0\<rparr>
        (Fin (513 / 512))) = Fin 1"
  by (simp add: price_eval)

text \<open>
  Claim C8, amended. For a product with a positive weight and with making
  charges and margin that are not negative, and for gold prices
  \<open>G1 < G2\<close>, the selling price at \<open>G2\<close> is never less than the selling price
  at \<open>G1\<close> (it can be equal).
\<close>

theorem sellingPrice_never_decreases:
  assumes "weight p = Fin w" and "0 < w"
    and "making_charges p = Fin m" and "0 \<le> m"
    and "profit_margin p = Fin k" and "0 \<le> k"
    and "G1 < G2"
  shows "\<not> jless (sellingPrice (calculatePrice p (Fin G2)))
                 (sellingPrice (calculatePrice p (Fin G1)))"
proof -
  have "le_or_NaN (Fin G1) (Fin G2)" using assms(7) by simp
  then have "le_or_NaN (sellingPrice (calculatePrice p (Fin G1)))
                       (sellingPrice (calculatePrice p (Fin G2)))"
    using assms(1-6) by (intro sellingPrice_mono [where w = w and m = m and k = k]) simp_all
  then show ?thesis by (rule le_or_NaN_not_less)
qed

text \<open>Claim C8, amended, for the necklace at the gold prices 3000 and 3100.\<close>

theorem sellingPrice_never_decreases_necklace:
  "(0 :: rat) < 21 / 2 \<and> (3000 :: rat) < 3100
   \<and> \<not> jless
        (sellingPrice (calculatePrice
           \<lparr>weight = Fin (21 / 2), carat = ''24K'', making_charges = Fin (15 / 2),
            profit_margin = Fin 15\<rparr> (Fin 3100)))
        (sellingPrice (calculatePrice
           \<lparr>weight = Fin (21 / 2), carat = ''24K'', making_charges = Fin (15 / 2),
            profit_margin = Fin 15\<rparr> (Fin 3000)))"
  using sellingPrice_never_decreases [of "\<lparr>weight = Fin (21 / 2), carat = ''24K'', making_charges = Fin (15 / 2),
            profit_margin = Fin 15\<rparr>" "21 / 2" "15 / 2" 15 3000 3100]
  by simp

text \<open>
  Claim C9, as stated, fails in its last part. The claim: the two variants
  differ at the label 22K and their tables agree apart from that. The table
  of the first variant has no entry 10K, so that label gets the factor 1
  there and 0.417 in the second variant.
\<close>

theorem factor_tables_differ_at_10K:
  "ToNumber (or_else (get_property caratFactors ''10K'') (Fin 1)) = Fin 1
   \<and> ToNumber (or_else (get_property CARAT_FACTORS ''10K'') (Fin 1)) = lit (417 / 1000)
   \<and> lit (417 / 1000) \<noteq> Fin 1"
  by (simp add: caratFactors_def price_eval)

text \<open>
  Claim C9, amended. The factors of the two variants differ at exactly two
  labels, 22K (0.916 in the first variant, 0.9167 in the second) and 10K,
  and agree at every other label; and the 22K product of weight 10 without
  charges and margin at the gold price 3000 gets the selling price 27480 in
  the first variant and 27501 in the second.
\<close>

theorem factor_tables_differ_at_22K_and_10K:
  "(ToNumber (or_else (get_property caratFactors key) (Fin 1)) =
    ToNumber (or_else (get_property CARAT_FACTORS key) (Fin 1))
      \<longleftrightarrow> key \<noteq> ''22K'' \<and> key \<noteq> ''10K'')
   \<and> ToNumber (or_else (get_property caratFactors ''22K'') (Fin 1)) = lit (916 / 1000)
   \<and> ToNumber (or_else (get_property CARAT_FACTORS ''22K'') (Fin 1)) = lit (9167 / 10000)
   \<and> newPrice_rounded
        \<lparr>weight = Fin 10, carat = ''22K'', making_charges = Fin 0, profit_margin = Fin 0\<rparr>
        (Fin 3000) = Fin 27480
   \<and> sellingPrice (calculatePrice
        \<lparr>weight = Fin 10, carat = ''22K'', making_charges = Fin 0, profit_margin = Fin 0\<rparr>
        (Fin 3000)) = Fin 27501"
  by (simp add: newPrice_rounded_def caratFactors_def price_eval)

text \<open>
  Claim C10. \<^verbatim>\<open>GET /api/products/:id\<close> answers 404 exactly when no active
  product has the id, that is when no product has it or when the product
  that has it is inactive; and a product it returns is an active row of the
  table with that id.
\<close>

theorem get_product_hides_inactive:
  "(get_product i d = Inl (Http404 ''Product not found'') \<longleftrightarrow>
     (\<forall>row \<in> set (products d). id' row = i \<longrightarrow> \<not> is_active row))
   \<and> (\<forall>row. get_product i d = Inr row \<longrightarrow>
         row \<in> set (products d) \<and> id' row = i \<and> is_active row)"
proof -
  define rows where "rows = filter (\<lambda>row. id' row = i \<and> is_active row) (products d)"
  show ?thesis
  proof (cases rows)
    case Nil
    then have "\<forall>row \<in> set (products d). \<not> (id' row = i \<and> is_active row)"
      unfolding rows_def by (simp add: filter_empty_conv)
    then show ?thesis using Nil by (auto simp: get_product_def rows_def)
  next
    case (Cons r rs)
    then have "r \<in> set rows" by simp
    then have "r \<in> set (products d) \<and> id' r = i \<and> is_active r" unfolding rows_def by simp
    then show ?thesis using Cons by (auto simp: get_product_def rows_def)
  qed
qed

text \<open>
  Claim C10 on the scenario database: the inactive pendant (id 5) and the
  absent id 9 both give 404.
\<close>

theorem get_product_retired_is_404:
  "get_product 5 scenario_db = Inl (Http404 ''Product not found'')
   \<and> get_product 9 scenario_db = Inl (Http404 ''Product not found'')
   \<and> retired_product \<in> set (products scenario_db)
   \<and> id' retired_product = 5 \<and> \<not> is_active retired_product"
  using get_product_hides_inactive [of 5 scenario_db] get_product_hides_inactive [of 9 scenario_db]
  by (simp add: db_eval)

end
